theory Spec2Isabelle
  imports Main "HOL-Library.Word"
begin

section \<open>Gondola ORM: join chains, field mapping and the SQL executor\<close>

text \<open>
  A shallow embedding of \<^verbatim>\<open>orm/model.go\<close> (join resolver, field mapper, model
  ordering) and of the SQL executor (\<^verbatim>\<open>DB\<close>: placeholder rewriting, statement
  cache, transactions).

  Conventions of the embedding.
  \<^item> A \<^verbatim>\<open>*model\<close> pointer is a natural number; the registered models are a table
    from these numbers to \<open>model\<close> records. Pointer equality of models is equality of the
    numbers. A nil \<^verbatim>\<open>*model\<close> is \<open>None\<close>.
  \<^item> A chain of \<^verbatim>\<open>*joinModel\<close> nodes linked by \<^verbatim>\<open>*join\<close> is a value of the
    datatype \<open>joinModel\<close>: finite and unshared, which is what \<^verbatim>\<open>clone\<close> keeps true of
    every chain the resolver extends. A pointer into a chain is the position of the node.
  \<^item> A Go panic (nil dereference, index out of range) is the error value \<open>Panic\<close>.
    The pointers that registration sets are taken to be set: the \<^verbatim>\<open>fields\<close> of a model
    and the \<^verbatim>\<open>model\<close> of a join are not nil.
  \<^item> The \<^verbatim>\<open>sync.RWMutex\<close> of the executor and the debug logging are left out: every
    operation is modelled as one sequential call.
\<close>

subsection \<open>Data model\<close>

datatype JoinType = InnerJoin | OuterJoin | LeftJoin | RightJoin

text \<open>
  Modelled from the spec: the \<^verbatim>\<open>query\<close> package is not among the sources. A condition
  \<^verbatim>\<open>query.Q\<close> is either a comparison of a field with a value (\<^verbatim>\<open>*query.Eq\<close> is the one
  the resolver tests for) or a combinator over sub-conditions. Comparison values are
  compared with \<^verbatim>\<open>reflect.DeepEqual\<close>, which is structural equality on the values below.
\<close>

datatype qvalue = F string | IntV int | StrV string

datatype Q =
    Eq string qvalue
  | Neq string qvalue
  | Lt string qvalue
  | Gt string qvalue
  | And "Q list"
  | Or "Q list"

text \<open>
  \<^verbatim>\<open>type join struct { model *joinModel; jtype JoinType; q query.Q }\<close> and
  \<^verbatim>\<open>type joinModel struct { *model; skip bool; join *join }\<close>. The selectors carry a
  prefix (\<open>jm_model\<close> for \<^verbatim>\<open>joinModel.model\<close>, \<open>j_q\<close> for \<^verbatim>\<open>join.q\<close>, and so on).
\<close>

datatype joinModel = JoinModel (jm_model: "nat option") (jm_skip: bool) (jm_join: "join option")
  and join = Join (j_model: joinModel) (j_jtype: JoinType) (j_q: "Q option")

text \<open>
  Modelled from the spec: \<^verbatim>\<open>driver.Fields\<close> is declared in a package that is not among
  the sources. It holds the map from qualified field name to field index, the quoted
  column names and semantic types by index, the referenced models (in the order the
  loop of \<^verbatim>\<open>less\<close> meets them) and the helper methods of the type.
\<close>

type_synonym rtype = string

record Fields =
  QNameMap :: "string \<Rightarrow> nat option"
  QuotedNames :: "string list"
  Types :: "rtype list"
  References :: "nat list"
  Methods :: nat

record model =
  m_name :: string
  m_shortName :: string
  m_table :: string
  m_fields :: Fields
  modelReferences :: "nat \<Rightarrow> join list"
  namedReferences :: "string \<Rightarrow> nat option"

type_synonym models = "nat \<Rightarrow> model"

datatype error =
    errCantMap string
  | errNotThisModel string
  | errAmbiguous string
  | errCantJoin joinModel nat
  | errAmbiguousJoin joinModel nat "Q option"
  | Panic

subsection \<open>Cloning and walking a chain\<close>

fun clone :: "joinModel \<Rightarrow> joinModel"
  and join_clone :: "join \<Rightarrow> join" where
  "clone (JoinModel m s None) = JoinModel m s None"
| "clone (JoinModel m s (Some jn)) = JoinModel m s (Some (join_clone jn))"
| "join_clone (Join jm jt q) = Join (clone jm) jt q"

text \<open>The nodes of a chain, from the base model to the tail.\<close>

fun chain :: "joinModel \<Rightarrow> joinModel list" where
  "chain (JoinModel m s None) = [JoinModel m s None]"
| "chain (JoinModel m s (Some (Join jm jt q))) = JoinModel m s (Some (Join jm jt q)) # chain jm"

text \<open>
  \<^verbatim>\<open>for m.join != nil { m = m.join.model }; m.join = jn\<close>: the assignment reaches the
  tail of the chain.
\<close>

fun set_tail_join :: "joinModel \<Rightarrow> join \<Rightarrow> joinModel" where
  "set_tail_join (JoinModel m s None) jn = JoinModel m s (Some jn)"
| "set_tail_join (JoinModel m s (Some (Join jm jt q))) jn =
     JoinModel m s (Some (Join (set_tail_join jm jn) jt q))"


subsection \<open>\<^verbatim>\<open>joinModel.joinWith\<close>\<close>

text \<open>
  The loop that gathers the candidates:
  \<^verbatim>\<open>for { candidates = append(candidates, m.modelReferences[model]...);
         if m.join == nil { break }; m = m.join.model }\<close>.
  Reading \<^verbatim>\<open>m.modelReferences\<close> through a nil \<^verbatim>\<open>*model\<close> panics.
\<close>

fun collect :: "models \<Rightarrow> joinModel \<Rightarrow> nat \<Rightarrow> join list \<Rightarrow> error + join list" where
  "collect ms (JoinModel None s jo) target candidates = Inl Panic"
| "collect ms (JoinModel (Some m) s None) target candidates =
     Inr (candidates @ modelReferences (ms m) target)"
| "collect ms (JoinModel (Some m) s (Some (Join jm jt q))) target candidates =
     collect ms jm target (candidates @ modelReferences (ms m) target)"

text \<open>
  The loop over \<^verbatim>\<open>candidates[1:]\<close>, with \<^verbatim>\<open>eq.Value\<close> of the first candidate:
  it stops with \<^verbatim>\<open>equal = false\<close> at the first candidate that is not an equality, joins
  another model or compares with another value.
\<close>

fun all_equal :: "join \<Rightarrow> qvalue \<Rightarrow> join list \<Rightarrow> bool" where
  "all_equal first ev [] = True"
| "all_equal first ev (v # vs) =
     (case j_q v of
        Some (Eq fld vv) \<Rightarrow>
          if jm_model (j_model first) \<noteq> jm_model (j_model v) \<or> ev \<noteq> vv then False
          else all_equal first ev vs
      | _ \<Rightarrow> False)"

definition collapse :: "join list \<Rightarrow> join list" where
  "collapse candidates =
     (if length candidates > 1 then
        (let first = hd candidates in
         case j_q first of
           Some (Eq fld ev) \<Rightarrow>
             if all_equal first ev (tl candidates) then take 1 candidates else candidates
         | _ \<Rightarrow> candidates)
      else candidates)"

text \<open>
  \<open>joinWith ms j model q jt\<close> returns the chain rooted at \<open>j\<close> after the call together
  with the position in it of the node the Go function returns. The argument \<open>model\<close> is a
  non-nil \<^verbatim>\<open>*model\<close>.
\<close>

definition joinWith ::
  "models \<Rightarrow> joinModel \<Rightarrow> nat \<Rightarrow> Q option \<Rightarrow> JoinType \<Rightarrow> error + (joinModel \<times> nat)" where
  "joinWith ms j model q jt =
     (case jm_model j of
        None \<Rightarrow> Inr (JoinModel (Some model) (jm_skip j) (jm_join j), 0)
      | Some _ \<Rightarrow>
          (case q of
             None \<Rightarrow>
               (case collect ms j model [] of
                  Inl e \<Rightarrow> Inl e
                | Inr candidates \<Rightarrow>
                    (case collapse candidates of
                       [c] \<Rightarrow>
                         (case join_clone c of
                            Join jm _ cq \<Rightarrow> Inr (set_tail_join j (Join jm jt cq), length (chain j)))
                     | [] \<Rightarrow> Inl (errCantJoin j model)
                     | _ \<Rightarrow> Inl (errAmbiguousJoin j model q)))
           | Some qq \<Rightarrow>
               Inr (set_tail_join j (Join (JoinModel (Some model) False None) jt (Some qq)),
                    length (chain j))))"

subsection \<open>\<^verbatim>\<open>joinModel.joinWithField\<close> and \<^verbatim>\<open>joinModel.Fields\<close>\<close>

text \<open>\<^verbatim>\<open>strings.IndexByte\<close>: the first index of the byte, \<open>None\<close> for \<^verbatim>\<open>-1\<close>.\<close>

fun IndexByte :: "string \<Rightarrow> char \<Rightarrow> nat option" where
  "IndexByte [] c = None"
| "IndexByte (x # xs) c = (if x = c then Some 0 else map_option Suc (IndexByte xs c))"




subsection \<open>\<^verbatim>\<open>model.Map\<close> and \<^verbatim>\<open>joinModel.Map\<close>\<close>

definition field_lookup :: "model \<Rightarrow> string \<Rightarrow> error + (string \<times> rtype)" where
  "field_lookup m qname =
     (case QNameMap (m_fields m) qname of
        Some n \<Rightarrow>
          if n < length (QuotedNames (m_fields m)) \<and> n < length (Types (m_fields m))
          then Inr (QuotedNames (m_fields m) ! n, Types (m_fields m) ! n)
          else Inl Panic
      | None \<Rightarrow> Inl (errCantMap qname))"

definition model_Map :: "model \<Rightarrow> string \<Rightarrow> error + (string \<times> rtype)" where
  "model_Map m qname =
     (case IndexByte qname (CHR ''|'') of
        Some sep \<Rightarrow>
          (let name = take sep qname in
           if name \<noteq> m_name m \<and> name \<noteq> m_shortName m then Inl (errNotThisModel name)
           else field_lookup m (drop (sep + 1) qname))
      | None \<Rightarrow> field_lookup m qname)"

text \<open>
  The loop of \<^verbatim>\<open>joinModel.Map\<close>: every node is asked; an answer without error
  becomes a candidate. A panic inside \<^verbatim>\<open>model.Map\<close> is not an error value the loop
  could skip: it ends the call.
\<close>

fun Map_loop ::
  "models \<Rightarrow> joinModel \<Rightarrow> string \<Rightarrow> (string \<times> rtype) list \<Rightarrow> error + (string \<times> rtype) list" where
  "Map_loop ms (JoinModel None s jo) qname candidates = Inl Panic"
| "Map_loop ms (JoinModel (Some m) s jo) qname candidates =
     (case model_Map (ms m) qname of
        Inl Panic \<Rightarrow> Inl Panic
      | r \<Rightarrow>
          (let candidates' = (case r of Inr c \<Rightarrow> candidates @ [c] | Inl err \<Rightarrow> candidates) in
           case jo of
             None \<Rightarrow> Inr candidates'
           | Some (Join jm jt q) \<Rightarrow> Map_loop ms jm qname candidates'))"

definition joinModel_Map :: "models \<Rightarrow> joinModel \<Rightarrow> string \<Rightarrow> error + (string \<times> rtype)" where
  "joinModel_Map ms j qname =
     (case Map_loop ms j qname [] of
        Inl e \<Rightarrow> Inl e
      | Inr candidates \<Rightarrow>
          (case candidates of
             [] \<Rightarrow> Inl (errCantMap qname)
           | [c] \<Rightarrow> Inr c
           | _ \<Rightarrow> Inl (errAmbiguous qname)))"

subsection \<open>\<^verbatim>\<open>sortModels.less\<close>\<close>



section \<open>The SQL executor\<close>

subsection \<open>\<^verbatim>\<open>DB.replacePlaceholders\<close>\<close>

text \<open>
  The loop \<^verbatim>\<open>for ii, ch := range query\<close> visits the runes of the text with the byte
  index of each. The three characters it tests for are ASCII, and no byte of a longer
  UTF-8 sequence (nor an invalid byte, read as U+FFFD) equals one of them, so the model
  visits the bytes: \<open>ii\<close> is the byte index, the third argument the bytes from \<open>ii\<close> on.
  \<open>buf\<close> is the \<^verbatim>\<open>bytes.Buffer\<close>, \<open>placeholder\<close> is \<^verbatim>\<open>d.driver.backend.Placeholder\<close>.
  The state at the end of the loop is \<open>(written, buf)\<close>.
\<close>

fun replacePlaceholders_loop ::
  "(nat \<Rightarrow> string) \<Rightarrow> string \<Rightarrow> string \<Rightarrow> nat \<Rightarrow> bool \<Rightarrow> bool \<Rightarrow> nat \<Rightarrow> nat \<Rightarrow> string
     \<Rightarrow> nat \<times> string" where
  "replacePlaceholders_loop placeholder query [] ii inQuote inDoubleQuote p written buf =
     (written, buf)"
| "replacePlaceholders_loop placeholder query (ch # rest) ii inQuote inDoubleQuote p written buf =
     (if ch = CHR 0x27 then
        replacePlaceholders_loop placeholder query rest (ii + 1)
          (if ii = length query - 1 \<or> query ! (ii + 1) \<noteq> CHR 0x27 then \<not> inQuote else inQuote)
          inDoubleQuote p written buf
      else if ch = CHR 0x22 then
        replacePlaceholders_loop placeholder query rest (ii + 1)
          inQuote (\<not> inDoubleQuote) p written buf
      else if ch = CHR ''?'' then
        (if \<not> inQuote \<and> \<not> inDoubleQuote then
           replacePlaceholders_loop placeholder query rest (ii + 1)
             inQuote inDoubleQuote (p + 1) (ii + 1)
             (buf @ take (ii - written) (drop written query) @ placeholder p)
         else
           replacePlaceholders_loop placeholder query rest (ii + 1)
             inQuote inDoubleQuote p written buf)
      else
        replacePlaceholders_loop placeholder query rest (ii + 1)
          inQuote inDoubleQuote p written buf)"

definition replacePlaceholders :: "(nat \<Rightarrow> string) \<Rightarrow> string \<Rightarrow> string" where
  "replacePlaceholders placeholder query =
     (case replacePlaceholders_loop placeholder query query 0 False False 0 0 [] of
        (written, buf) \<Rightarrow> if written = 0 then query else buf @ drop written query)"

subsection \<open>The handle\<close>

text \<open>
  A \<^verbatim>\<open>*sql.DB\<close>, a \<^verbatim>\<open>*sql.Tx\<close> and a \<^verbatim>\<open>*sql.Stmt\<close> are handles of the standard
  library. A statement records the text it was prepared from; \<^verbatim>\<open>tx.Stmt(stmt)\<close> is the
  statement bound to the transaction. \<open>conn\<close> is \<^verbatim>\<open>sqlDb\<close> or \<^verbatim>\<open>tx\<close>.
\<close>

datatype stmt = Stmt (stmt_id: nat) (stmt_text: string) | TxStmt nat stmt

datatype queryExecutor = OnDB nat | OnTx nat

datatype sqlerr = SqlErr nat

record cacheEntry =
  sql :: string
  stmt :: stmt

text \<open>
  \<^verbatim>\<open>type DB struct\<close>. \<open>Placeholder\<close> stands for \<^verbatim>\<open>driver.backend.Placeholder\<close>, the
  only part of the driver the executor reads here; a nil \<^verbatim>\<open>cache\<close> map is \<open>None\<close>.
  A handle is a value: a method returns its receiver as the call leaves it. The copy that
  \<^verbatim>\<open>Begin\<close> makes shares the Go map behind a non-nil \<^verbatim>\<open>cache\<close> with the original; the
  model follows the cache of one handle at a time.
\<close>

record DB =
  sqlDb :: nat
  tx :: "nat option"
  txDone :: bool
  conn :: queryExecutor
  Placeholder :: "nat \<Rightarrow> string"
  replacesPlaceholders :: bool
  cache :: "(32 word \<Rightarrow> cacheEntry option) option"

text \<open>
  What a method hands to the standard library. The value the Go method returns is the
  value this call returns, unchanged.
\<close>

datatype call =
    conn_Exec queryExecutor string "qvalue list"
  | conn_Query queryExecutor string "qvalue list"
  | conn_QueryRow queryExecutor string "qvalue list"
  | stmt_Exec stmt "qvalue list"
  | stmt_Query stmt "qvalue list"
  | stmt_QueryRow stmt "qvalue list"

text \<open>The text a statement was prepared from, and the text a call carries.\<close>

fun stmt_sql :: "stmt \<Rightarrow> string" where
  "stmt_sql (Stmt n s) = s"
| "stmt_sql (TxStmt t st) = stmt_sql st"

fun call_text :: "call \<Rightarrow> string" where
  "call_text (conn_Exec c s a) = s"
| "call_text (conn_Query c s a) = s"
| "call_text (conn_QueryRow c s a) = s"
| "call_text (stmt_Exec st a) = stmt_sql st"
| "call_text (stmt_Query st a) = stmt_sql st"
| "call_text (stmt_QueryRow st a) = stmt_sql st"

subsection \<open>\<^verbatim>\<open>DB.preparedStmt\<close>\<close>

text \<open>
  \<open>ChecksumIEEE\<close> is the 32-bit checksum of the text and \<open>Prepare\<close> what
  \<^verbatim>\<open>d.sqlDb.Prepare(s)\<close> returns, the statement (\<open>None\<close> for nil) and the error: both
  belong to the standard library and are parameters. The result is the statement
  returned (\<open>None\<close> for nil), the handle after the call and the texts handed to
  \<^verbatim>\<open>Prepare\<close> during the call.
\<close>

definition tx_bind :: "DB \<Rightarrow> stmt \<Rightarrow> stmt" where
  "tx_bind d st = (case tx d of Some t \<Rightarrow> TxStmt t st | None \<Rightarrow> st)"

definition cache_lookup :: "DB \<Rightarrow> 32 word \<Rightarrow> cacheEntry option" where
  "cache_lookup d key = (case cache d of None \<Rightarrow> None | Some c \<Rightarrow> c key)"

definition cache_store :: "DB \<Rightarrow> 32 word \<Rightarrow> cacheEntry \<Rightarrow> DB" where
  "cache_store d key e =
     d\<lparr>cache := Some ((case cache d of None \<Rightarrow> (\<lambda>k. None) | Some c \<Rightarrow> c)(key := Some e))\<rparr>"

definition preparedStmt ::
  "(string \<Rightarrow> 32 word) \<Rightarrow> (string \<Rightarrow> stmt option \<times> sqlerr option) \<Rightarrow> DB \<Rightarrow> string
     \<Rightarrow> stmt option \<times> DB \<times> string list" where
  "preparedStmt ChecksumIEEE Prepare d s =
     (let key = ChecksumIEEE s in
      case cache_lookup d key of
        Some cached \<Rightarrow>
          if sql cached = s then (Some (tx_bind d (stmt cached)), d, [])
          else
            (case fst (Prepare s) of
               None \<Rightarrow> (None, d, [s])
             | Some st \<Rightarrow>
                 (Some (tx_bind d st), cache_store d key \<lparr>sql = s, stmt = st\<rparr>, [s]))
      | None \<Rightarrow>
          (case fst (Prepare s) of
             None \<Rightarrow> (None, d, [s])
           | Some st \<Rightarrow>
               (Some (tx_bind d st), cache_store d key \<lparr>sql = s, stmt = st\<rparr>, [s])))"

subsection \<open>\<^verbatim>\<open>Exec\<close>, \<^verbatim>\<open>Query\<close>, \<^verbatim>\<open>QueryRow\<close>\<close>

text \<open>
  Each returns the call whose result the Go method returns, the handle after the call
  and the texts handed to \<^verbatim>\<open>Prepare\<close>.
\<close>

definition Exec ::
  "(string \<Rightarrow> 32 word) \<Rightarrow> (string \<Rightarrow> stmt option \<times> sqlerr option) \<Rightarrow> DB \<Rightarrow> string
     \<Rightarrow> qvalue list \<Rightarrow> call \<times> DB \<times> string list" where
  "Exec ChecksumIEEE Prepare d query0 args =
     (let query = (if replacesPlaceholders d then replacePlaceholders (Placeholder d) query0
                   else query0) in
      if length args > 0 then
        (case preparedStmt ChecksumIEEE Prepare d query of
           (Some st, d', ps) \<Rightarrow> (stmt_Exec st args, d', ps)
         | (None, d', ps) \<Rightarrow> (conn_Exec (conn d') query args, d', ps))
      else (conn_Exec (conn d) query args, d, []))"

definition Query ::
  "(string \<Rightarrow> 32 word) \<Rightarrow> (string \<Rightarrow> stmt option \<times> sqlerr option) \<Rightarrow> DB \<Rightarrow> string
     \<Rightarrow> qvalue list \<Rightarrow> call \<times> DB \<times> string list" where
  "Query ChecksumIEEE Prepare d query0 args =
     (let query = (if replacesPlaceholders d then replacePlaceholders (Placeholder d) query0
                   else query0) in
      if length args > 0 then
        (case preparedStmt ChecksumIEEE Prepare d query of
           (Some st, d', ps) \<Rightarrow> (stmt_Query st args, d', ps)
         | (None, d', ps) \<Rightarrow> (conn_Query (conn d') query args, d', ps))
      else (conn_Query (conn d) query args, d, []))"

definition QueryRow ::
  "(string \<Rightarrow> 32 word) \<Rightarrow> (string \<Rightarrow> stmt option \<times> sqlerr option) \<Rightarrow> DB \<Rightarrow> string
     \<Rightarrow> qvalue list \<Rightarrow> call \<times> DB \<times> string list" where
  "QueryRow ChecksumIEEE Prepare d query0 args =
     (let query1 = (if replacesPlaceholders d then replacePlaceholders (Placeholder d) query0
                    else query0);
          query = replacePlaceholders (Placeholder d) query1 in
      if length args > 0 then
        (case preparedStmt ChecksumIEEE Prepare d query of
           (Some st, d', ps) \<Rightarrow> (stmt_QueryRow st args, d', ps)
         | (None, d', ps) \<Rightarrow> (conn_QueryRow (conn d') query args, d', ps))
      else (conn_QueryRow (conn d) query args, d, []))"

subsection \<open>Transactions\<close>

datatype dberror = ErrInTransaction | ErrNotInTransaction | Backend sqlerr

text \<open>
  What \<^verbatim>\<open>Commit\<close>, \<^verbatim>\<open>Rollback\<close> and \<^verbatim>\<open>Close\<close> return: an error of their own, nil
  without calling anything, or the result of the one call they make on the transaction
  or the database.
\<close>

datatype txcall = tx_Commit nat | tx_Rollback nat | sqlDb_Close nat

datatype ret = RetErr dberror | RetNil | RetOf txcall

text \<open>
  \<open>Begin\<close> takes what \<^verbatim>\<open>d.sqlDb.Begin()\<close> returns (it is called only on a handle not
  in a transaction) and gives back the receiver after the call and the result:
  \<^verbatim>\<open>dc := *d; dc.tx = tx; dc.conn = tx; return &dc, nil\<close>.
\<close>

definition Begin :: "(sqlerr + nat) \<Rightarrow> DB \<Rightarrow> DB \<times> (dberror + DB)" where
  "Begin sqlDb_Begin d =
     (if tx d \<noteq> None then (d, Inl ErrInTransaction)
      else
        (case sqlDb_Begin of
           Inl err \<Rightarrow> (d, Inl (Backend err))
         | Inr t \<Rightarrow> (d, Inr (d\<lparr>tx := Some t, conn := OnTx t\<rparr>))))"

definition Commit :: "DB \<Rightarrow> DB \<times> ret" where
  "Commit d =
     (case tx d of
        None \<Rightarrow> (d, RetErr ErrNotInTransaction)
      | Some t \<Rightarrow> (d\<lparr>txDone := True\<rparr>, RetOf (tx_Commit t)))"

definition Rollback :: "DB \<Rightarrow> DB \<times> ret" where
  "Rollback d =
     (case tx d of
        None \<Rightarrow> (d, RetErr ErrNotInTransaction)
      | Some t \<Rightarrow> (d\<lparr>txDone := True\<rparr>, RetOf (tx_Rollback t)))"

definition Close :: "DB \<Rightarrow> DB \<times> ret" where
  "Close d =
     (case tx d of
        Some t \<Rightarrow> if \<not> txDone d then (d, RetOf (tx_Rollback t)) else (d, RetNil)
      | None \<Rightarrow> (d, RetOf (sqlDb_Close (sqlDb d))))"

text \<open>A sequence of calls on one handle, with the calls made on the way.\<close>

datatype dbmethod = CallCommit | CallRollback | CallClose

fun run :: "dbmethod list \<Rightarrow> DB \<Rightarrow> DB \<times> ret list" where
  "run [] d = (d, [])"
| "run (m # ms) d =
     (case (case m of CallCommit \<Rightarrow> Commit d | CallRollback \<Rightarrow> Rollback d | CallClose \<Rightarrow> Close d) of
        (d', r) \<Rightarrow> (case run ms d' of (d'', rs) \<Rightarrow> (d'', r # rs)))"

subsection \<open>Predicates on the cache and the library\<close>

text \<open>
  Every cached statement was prepared from the text stored with it; the library's
  \<^verbatim>\<open>Prepare\<close> returns statements for the text it is given; and: a call of
  \<^verbatim>\<open>preparedStmt\<close> for a text finds no entry with that text and the \<^verbatim>\<open>Prepare\<close> it
  then makes returns no statement.
\<close>

definition cache_sound :: "DB \<Rightarrow> bool" where
  "cache_sound d = (\<forall>k e. cache_lookup d k = Some e \<longrightarrow> stmt_sql (stmt e) = sql e)"

definition prepares_given_text :: "(string \<Rightarrow> stmt option \<times> sqlerr option) \<Rightarrow> bool" where
  "prepares_given_text Prepare = (\<forall>s st. fst (Prepare s) = Some st \<longrightarrow> stmt_sql st = s)"

definition cache_hit :: "(string \<Rightarrow> 32 word) \<Rightarrow> DB \<Rightarrow> string \<Rightarrow> bool" where
  "cache_hit ChecksumIEEE d s =
     (case cache_lookup d (ChecksumIEEE s) of None \<Rightarrow> False | Some e \<Rightarrow> sql e = s)"

definition preparation_fails ::
  "(string \<Rightarrow> 32 word) \<Rightarrow> (string \<Rightarrow> stmt option \<times> sqlerr option) \<Rightarrow> DB \<Rightarrow> string \<Rightarrow> bool" where
  "preparation_fails ChecksumIEEE Prepare d s =
     (\<not> cache_hit ChecksumIEEE d s \<and> fst (Prepare s) = None)"

subsection \<open>The words of the specification about chains\<close>

text \<open>
  The join steps of a chain in order (target model, join type, condition); a chain all of
  whose nodes have a model; the references to a target found on the models of a chain,
  from the base to the tail; and a candidate list whose members are all equality
  conditions with the comparison value and the target model of the first.
\<close>

fun steps :: "joinModel \<Rightarrow> (nat option \<times> JoinType \<times> Q option) list" where
  "steps (JoinModel m s None) = []"
| "steps (JoinModel m s (Some (Join jm jt q))) = (jm_model jm, jt, q) # steps jm"

definition nonnil_chain :: "joinModel \<Rightarrow> bool" where
  "nonnil_chain j = (\<forall>n \<in> set (chain j). jm_model n \<noteq> None)"

definition references_to :: "models \<Rightarrow> joinModel \<Rightarrow> nat \<Rightarrow> join list" where
  "references_to ms j target =
     concat (map (\<lambda>n. case jm_model n of None \<Rightarrow> [] | Some m \<Rightarrow> modelReferences (ms m) target)
                 (chain j))"

fun eq_value :: "join \<Rightarrow> qvalue option" where
  "eq_value (Join jm jt (Some (Eq fld v))) = Some v"
| "eq_value (Join jm jt q) = None"

definition redundant :: "join list \<Rightarrow> bool" where
  "redundant cs =
     (eq_value (hd cs) \<noteq> None \<and>
      (\<forall>c \<in> set cs. eq_value c = eq_value (hd cs)
                    \<and> jm_model (j_model c) = jm_model (j_model (hd cs))))"

subsection \<open>The words of the specification about field mapping\<close>

text \<open>
  The field indexes of a model lie within its column names and types; a model answers to
  a name when it is its name or its short name; the column and type a model has for a
  field name (none or one); the models of a chain; and the matches of a qualified name
  over a chain: with a \<^verbatim>\<open>Type|\<close> prefix, the fields of that name on the models that
  answer to the prefix; without one, the fields of that name on every model.
\<close>

definition fields_ok :: "model \<Rightarrow> bool" where
  "fields_ok m =
     (\<forall>q n. QNameMap (m_fields m) q = Some n \<longrightarrow>
        n < length (QuotedNames (m_fields m)) \<and> n < length (Types (m_fields m)))"

definition named :: "model \<Rightarrow> string \<Rightarrow> bool" where
  "named m typ = (typ = m_name m \<or> typ = m_shortName m)"

definition field_of :: "model \<Rightarrow> string \<Rightarrow> (string \<times> rtype) list" where
  "field_of m fld =
     (case QNameMap (m_fields m) fld of
        None \<Rightarrow> []
      | Some n \<Rightarrow> [(QuotedNames (m_fields m) ! n, Types (m_fields m) ! n)])"

definition chain_models :: "models \<Rightarrow> joinModel \<Rightarrow> model list" where
  "chain_models ms j =
     concat (map (\<lambda>n. case jm_model n of None \<Rightarrow> [] | Some m \<Rightarrow> [ms m]) (chain j))"

definition matches :: "models \<Rightarrow> joinModel \<Rightarrow> string \<Rightarrow> (string \<times> rtype) list" where
  "matches ms j qname =
     (case IndexByte qname (CHR ''|'') of
        Some sep \<Rightarrow>
          concat (map (\<lambda>m. field_of m (drop (sep + 1) qname))
                      (filter (\<lambda>m. named m (take sep qname)) (chain_models ms j)))
      | None \<Rightarrow> concat (map (\<lambda>m. field_of m qname) (chain_models ms j)))"

text \<open>What one model contributes to the candidates of \<^verbatim>\<open>joinModel.Map\<close>.\<close>

definition answers :: "model \<Rightarrow> string \<Rightarrow> (string \<times> rtype) list" where
  "answers m qname = (case model_Map m qname of Inr c \<Rightarrow> [c] | Inl err \<Rightarrow> [])"



subsection \<open>The words of the specification about the order of models\<close>



section \<open>Example data\<close>

subsection \<open>Executor handles\<close>

text \<open>
  A backend with numbered placeholders (\<^verbatim>\<open>$1\<close>, \<^verbatim>\<open>$2\<close>, ...; nine are enough for
  the examples), a \<^verbatim>\<open>Prepare\<close> that succeeds and one that fails, a checksum under
  which all texts collide, and three handles: outside a transaction, inside one, and
  inside one with a statement in the cache.
\<close>

definition numbered :: "nat \<Rightarrow> string" where
  "numbered n = [CHR ''$'', ''123456789'' ! n]"

definition prepare_ok :: "string \<Rightarrow> stmt option \<times> sqlerr option" where
  "prepare_ok s = (Some (Stmt 7 s), None)"

definition prepare_fails :: "string \<Rightarrow> stmt option \<times> sqlerr option" where
  "prepare_fails s = (None, Some (SqlErr 1))"

definition colliding :: "string \<Rightarrow> 32 word" where
  "colliding s = 0"

definition plain_db :: DB where
  "plain_db =
     \<lparr>sqlDb = 0, tx = None, txDone = False, conn = OnDB 0, Placeholder = numbered,
      replacesPlaceholders = False, cache = None\<rparr>"

definition tx_db :: DB where
  "tx_db =
     \<lparr>sqlDb = 0, tx = Some 1, txDone = False, conn = OnTx 1, Placeholder = numbered,
      replacesPlaceholders = True, cache = None\<rparr>"

definition cached_db :: DB where
  "cached_db =
     \<lparr>sqlDb = 0, tx = None, txDone = False, conn = OnDB 0, Placeholder = numbered,
      replacesPlaceholders = True,
      cache = Some ((\<lambda>k. None)(0 := Some \<lparr>sql = ''SELECT a WHERE b = $1'',
                                            stmt = Stmt 3 ''SELECT a WHERE b = $1''\<rparr>))\<rparr>"

subsection \<open>Registered models\<close>

text \<open>
  Four models (the user is 0, the article 2, the comment 3, the review 4). An article has an author; a comment belongs to an article and has an
  author and an editor, both users (two references with the same comparison value); a
  review has a reviewer and a subject, compared with different fields of the user. Every
  other number is a model without fields and references.
\<close>

definition to_model :: "nat \<Rightarrow> string \<Rightarrow> string \<Rightarrow> join" where
  "to_model m fld v = Join (JoinModel (Some m) False None) InnerJoin (Some (Eq fld (F v)))"

definition no_fields :: Fields where
  "no_fields = \<lparr>QNameMap = (\<lambda>q. None), QuotedNames = [], Types = [], References = [], Methods = 0\<rparr>"

definition user_model :: model where
  "user_model =
     \<lparr>m_name = ''User'', m_shortName = ''U'', m_table = ''user'',
      m_fields = \<lparr>QNameMap = [''Id'' \<mapsto> 0, ''Name'' \<mapsto> 1], QuotedNames = [''id'', ''name''],
                  Types = [''int64'', ''string''], References = [], Methods = 10\<rparr>,
      modelReferences = (\<lambda>t. []),
      namedReferences = (\<lambda>n. None)\<rparr>"

definition article_model :: model where
  "article_model =
     \<lparr>m_name = ''Article'', m_shortName = ''A'', m_table = ''article'',
      m_fields = \<lparr>QNameMap = [''Id'' \<mapsto> 0, ''Title'' \<mapsto> 1, ''Author'' \<mapsto> 2],
                  QuotedNames = [''id'', ''title'', ''author''],
                  Types = [''int64'', ''string'', ''int64''], References = [0], Methods = 11\<rparr>,
      modelReferences = (\<lambda>t. if t = 0 then [to_model 0 ''Article|Author'' ''User|Id''] else []),
      namedReferences = [''User'' \<mapsto> 0, ''U'' \<mapsto> 0]\<rparr>"

definition comment_model :: model where
  "comment_model =
     \<lparr>m_name = ''Comment'', m_shortName = ''C'', m_table = ''comment'',
      m_fields = \<lparr>QNameMap = [''Id'' \<mapsto> 0, ''Article'' \<mapsto> 1, ''Author'' \<mapsto> 2, ''Editor'' \<mapsto> 3],
                  QuotedNames = [''id'', ''article'', ''author'', ''editor''],
                  Types = [''int64'', ''int64'', ''int64'', ''int64''],
                  References = [2, 0, 0], Methods = 12\<rparr>,
      modelReferences =
        (\<lambda>t. if t = 0 then [to_model 0 ''Comment|Author'' ''User|Id'',
                             to_model 0 ''Comment|Editor'' ''User|Id'']
             else if t = 2 then [to_model 2 ''Comment|Article'' ''Article|Id'']
             else []),
      namedReferences = [''User'' \<mapsto> 0, ''Article'' \<mapsto> 2]\<rparr>"

definition review_model :: model where
  "review_model =
     \<lparr>m_name = ''Review'', m_shortName = ''R'', m_table = ''review'',
      m_fields = \<lparr>QNameMap = [''Id'' \<mapsto> 0, ''Reviewer'' \<mapsto> 1, ''Subject'' \<mapsto> 2],
                  QuotedNames = [''id'', ''reviewer'', ''subject''],
                  Types = [''int64'', ''int64'', ''string''],
                  References = [0, 0], Methods = 13\<rparr>,
      modelReferences =
        (\<lambda>t. if t = 0 then [to_model 0 ''Review|Reviewer'' ''User|Id'',
                             to_model 0 ''Review|Subject'' ''User|Name'']
             else []),
      namedReferences = [''User'' \<mapsto> 0]\<rparr>"

definition registry :: models where
  "registry m =
     (if m = 0 then user_model else if m = 2 then article_model
      else if m = 3 then comment_model else if m = 4 then review_model
      else \<lparr>m_name = ''Tag'', m_shortName = ''T'', m_table = ''tag'', m_fields = no_fields,
            modelReferences = (\<lambda>t. []), namedReferences = (\<lambda>n. None)\<rparr>)"

text \<open>
  Chains: one model alone, an article explicitly joined with its comments, and an
  article joined with its author.
\<close>

definition single :: "nat \<Rightarrow> joinModel" where
  "single m = JoinModel (Some m) False None"

definition article_comments :: joinModel where
  "article_comments =
     JoinModel (Some 2) False
       (Some (Join (single 3) LeftJoin (Some (Eq ''Comment|Article'' (F ''Article|Id'')))))"

definition article_user :: joinModel where
  "article_user =
     JoinModel (Some 2) False
       (Some (Join (single 0) InnerJoin (Some (Eq ''Article|Author'' (F ''User|Id'')))))"


section \<open>Properties of the executor\<close>

lemmas sql_defs = Exec_def Query_def QueryRow_def preparedStmt_def cache_lookup_def
  cache_store_def tx_bind_def Let_def

lemmas example_db_defs = plain_db_def tx_db_def cached_db_def numbered_def prepare_ok_def
  prepare_fails_def colliding_def

subsection \<open>Placeholder rewriting and escaped quotes\<close>

text \<open>
  C2. A doubled single quote inside a single-quoted literal is meant not to toggle the
  quote state. In the code only the first quote of the pair is skipped (it is followed by
  a quote); the second one is followed by another character and toggles. So in
  \<^verbatim>\<open>'It''s ?'\<close> the literal counts as closed after the pair and the \<^verbatim>\<open>?\<close> inside
  it is replaced, and after the empty literal in \<^verbatim>\<open>a = '' AND b = ?\<close> the scanner
  believes it is inside a literal and leaves the \<^verbatim>\<open>?\<close> outside it alone. The theorem
  evaluates the code on both texts, for every placeholder function.
\<close>

theorem replacePlaceholders_escaped_quote_reopens:
  "replacePlaceholders placeholder (CHR 0x27 # ''It'' @ [CHR 0x27, CHR 0x27] @ ''s ?'' @ [CHR 0x27])
     = CHR 0x27 # ''It'' @ [CHR 0x27, CHR 0x27] @ ''s '' @ placeholder 0 @ [CHR 0x27]
   \<and> replacePlaceholders placeholder (''a = '' @ [CHR 0x27, CHR 0x27] @ '' AND b = ?'')
     = ''a = '' @ [CHR 0x27, CHR 0x27] @ '' AND b = ?''"
  by (simp add: replacePlaceholders_def)

theorem replacePlaceholders_escaped_quote_reopens_witness:
  "replacePlaceholders numbered (CHR 0x27 # ''It'' @ [CHR 0x27, CHR 0x27] @ ''s ?'' @ [CHR 0x27])
     = CHR 0x27 # ''It'' @ [CHR 0x27, CHR 0x27] @ ''s $1'' @ [CHR 0x27]"
  using replacePlaceholders_escaped_quote_reopens [of numbered] by (simp add: numbered_def)

subsection \<open>Preprocessing of the query text\<close>

text \<open>
  C10. \<^verbatim>\<open>Exec\<close> and \<^verbatim>\<open>Query\<close> rewrite the placeholders once, and only when the
  handle is configured to; \<^verbatim>\<open>QueryRow\<close> has a second, unconditional call of the
  rewrite. On a handle that is configured not to rewrite, with a backend whose
  placeholders are numbered, \<^verbatim>\<open>QueryRow\<close> therefore hands \<^verbatim>\<open>SELECT $1\<close> to the
  library where \<^verbatim>\<open>Query\<close> and \<^verbatim>\<open>Exec\<close> hand \<^verbatim>\<open>SELECT ?\<close>.
\<close>

theorem QueryRow_rewrites_again:
  "call_text (fst (QueryRow colliding prepare_ok plain_db ''SELECT ?'' [IntV 1])) = ''SELECT $1''
   \<and> call_text (fst (Query colliding prepare_ok plain_db ''SELECT ?'' [IntV 1])) = ''SELECT ?''
   \<and> call_text (fst (Exec colliding prepare_ok plain_db ''SELECT ?'' [IntV 1])) = ''SELECT ?''
   \<and> QueryRow colliding prepare_fails plain_db ''SELECT ?'' [IntV 1]
       = (conn_QueryRow (OnDB 0) ''SELECT $1'' [IntV 1], plain_db, [''SELECT $1''])
   \<and> Query colliding prepare_fails plain_db ''SELECT ?'' [IntV 1]
       = (conn_Query (OnDB 0) ''SELECT ?'' [IntV 1], plain_db, [''SELECT ?''])"
  by (simp add: sql_defs example_db_defs replacePlaceholders_def)

theorem QueryRow_rewrites_again_witness:
  "call_text (fst (QueryRow colliding prepare_ok plain_db ''SELECT ?'' [IntV 1]))
     \<noteq> call_text (fst (Query colliding prepare_ok plain_db ''SELECT ?'' [IntV 1]))"
  using QueryRow_rewrites_again by simp

subsection \<open>The statement cache\<close>

lemma stmt_sql_tx_bind: "stmt_sql (tx_bind d st) = stmt_sql st"
  by (simp add: tx_bind_def split: option.splits)

lemma preparedStmt_hit:
  "cache_hit C d s \<Longrightarrow>
   preparedStmt C P d s = (Some (tx_bind d (stmt (the (cache_lookup d (C s))))), d, [])"
  by (auto simp: preparedStmt_def cache_hit_def Let_def split: option.splits)

lemma preparedStmt_fresh:
  "\<not> cache_hit C d s \<Longrightarrow>
   preparedStmt C P d s =
     (case fst (P s) of
        None \<Rightarrow> (None, d, [s])
      | Some st \<Rightarrow> (Some (tx_bind d st), cache_store d (C s) \<lparr>sql = s, stmt = st\<rparr>, [s]))"
  by (auto simp: preparedStmt_def cache_hit_def Let_def split: option.splits)

lemma cache_sound_store:
  "cache_sound d \<Longrightarrow> stmt_sql st = s \<Longrightarrow> cache_sound (cache_store d k \<lparr>sql = s, stmt = st\<rparr>)"
  by (auto simp: cache_sound_def cache_store_def cache_lookup_def split: option.splits if_splits)

text \<open>
  C4. A lookup that finds an entry under the checksum of the text reuses the cached
  statement only when the stored text equals the lookup text. When there is no entry, or
  the entry holds another text with the same checksum, \<^verbatim>\<open>Prepare\<close> is called with the
  lookup text and its statement (bound to the transaction, if any) is what is returned.
  So, as long as every cached statement was prepared from the text stored with it and
  the library prepares the text it is given, the statement returned was prepared from
  the lookup text, and the cache stays sound.
\<close>

theorem preparedStmt_rechecks_text:
  "(cache_hit C d s \<longrightarrow>
      preparedStmt C P d s = (Some (tx_bind d (stmt (the (cache_lookup d (C s))))), d, []))
   \<and> (\<not> cache_hit C d s \<longrightarrow>
        fst (preparedStmt C P d s) = map_option (tx_bind d) (fst (P s))
        \<and> snd (snd (preparedStmt C P d s)) = [s])
   \<and> (cache_sound d \<and> prepares_given_text P \<longrightarrow>
        (\<forall>st. fst (preparedStmt C P d s) = Some st \<longrightarrow> stmt_sql st = s)
        \<and> cache_sound (fst (snd (preparedStmt C P d s))))"
proof (intro conjI impI)
  assume "cache_hit C d s"
  then show "preparedStmt C P d s = (Some (tx_bind d (stmt (the (cache_lookup d (C s))))), d, [])"
    by (rule preparedStmt_hit)
next
  assume "\<not> cache_hit C d s"
  then show "fst (preparedStmt C P d s) = map_option (tx_bind d) (fst (P s))"
    and "snd (snd (preparedStmt C P d s)) = [s]"
    by (simp_all add: preparedStmt_fresh split: option.splits)
next
  assume a: "cache_sound d \<and> prepares_given_text P"
  show "\<forall>st. fst (preparedStmt C P d s) = Some st \<longrightarrow> stmt_sql st = s"
  proof (cases "cache_hit C d s")
    case True
    then obtain e where e: "cache_lookup d (C s) = Some e" "sql e = s"
      by (auto simp: cache_hit_def split: option.splits)
    with a have "stmt_sql (stmt e) = s" by (auto simp: cache_sound_def)
    with True e show ?thesis by (simp add: preparedStmt_hit stmt_sql_tx_bind)
  next
    case False
    with a show ?thesis
      by (auto simp: preparedStmt_fresh prepares_given_text_def stmt_sql_tx_bind split: option.splits)
  qed
  show "cache_sound (fst (snd (preparedStmt C P d s)))"
  proof (cases "cache_hit C d s")
    case True
    with a show ?thesis by (simp add: preparedStmt_hit)
  next
    case False
    with a show ?thesis
      by (auto simp: preparedStmt_fresh prepares_given_text_def intro: cache_sound_store split: option.splits)
  qed
qed

lemma cache_sound_cached_db: "cache_sound cached_db"
  by (simp add: cache_sound_def cached_db_def cache_lookup_def)

lemma prepares_given_text_ok: "prepares_given_text prepare_ok"
  by (simp add: prepares_given_text_def prepare_ok_def)

theorem preparedStmt_rechecks_text_witness:
  "colliding ''SELECT c WHERE d = $1'' = colliding ''SELECT a WHERE b = $1''
   \<and> cache_hit colliding cached_db ''SELECT a WHERE b = $1''
   \<and> preparedStmt colliding prepare_ok cached_db ''SELECT a WHERE b = $1''
       = (Some (Stmt 3 ''SELECT a WHERE b = $1''), cached_db, [])
   \<and> \<not> cache_hit colliding cached_db ''SELECT c WHERE d = $1''
   \<and> fst (preparedStmt colliding prepare_ok cached_db ''SELECT c WHERE d = $1'')
       = Some (Stmt 7 ''SELECT c WHERE d = $1'')
   \<and> snd (snd (preparedStmt colliding prepare_ok cached_db ''SELECT c WHERE d = $1''))
       = [''SELECT c WHERE d = $1'']
   \<and> cache_sound cached_db \<and> prepares_given_text prepare_ok
   \<and> cache_sound (fst (snd (preparedStmt colliding prepare_ok cached_db ''SELECT c WHERE d = $1'')))"
proof -
  have h1: "cache_hit colliding cached_db ''SELECT a WHERE b = $1''"
    by (simp add: cache_hit_def cached_db_def colliding_def cache_lookup_def)
  have h2: "\<not> cache_hit colliding cached_db ''SELECT c WHERE d = $1''"
    by (simp add: cache_hit_def cached_db_def colliding_def cache_lookup_def)
  have l: "the (cache_lookup cached_db 0)
      = \<lparr>sql = ''SELECT a WHERE b = $1'', stmt = Stmt 3 ''SELECT a WHERE b = $1''\<rparr>"
    by (simp add: cached_db_def cache_lookup_def)
  have b: "tx_bind cached_db = (\<lambda>st. st)"
    by (simp add: tx_bind_def cached_db_def fun_eq_iff)
  show ?thesis
    using preparedStmt_rechecks_text [of colliding cached_db "''SELECT a WHERE b = $1''" prepare_ok]
      preparedStmt_rechecks_text [of colliding cached_db "''SELECT c WHERE d = $1''" prepare_ok]
      h1 h2 cache_sound_cached_db prepares_given_text_ok
    by (simp add: l b prepare_ok_def colliding_def)
qed

text \<open>
  C5. When the preparation of the (rewritten) text fails, that is, no cached statement
  for the text exists and \<^verbatim>\<open>Prepare\<close> returns no statement, \<^verbatim>\<open>Exec\<close>,
  \<^verbatim>\<open>Query\<close> and \<^verbatim>\<open>QueryRow\<close> return what the unprepared call on the connection
  returns. The error of \<^verbatim>\<open>Prepare\<close> (the second component of its result) takes no part
  in the result.
\<close>

theorem prepare_failure_falls_back:
  assumes "args \<noteq> []"
    and "q = (if replacesPlaceholders d then replacePlaceholders (Placeholder d) query0 else query0)"
    and "q2 = replacePlaceholders (Placeholder d) q"
  shows "(preparation_fails C P d q \<longrightarrow>
            Exec C P d query0 args = (conn_Exec (conn d) q args, d, [q])
            \<and> Query C P d query0 args = (conn_Query (conn d) q args, d, [q]))
         \<and> (preparation_fails C P d q2 \<longrightarrow>
            QueryRow C P d query0 args = (conn_QueryRow (conn d) q2 args, d, [q2]))"
  using assms
  by (auto simp: preparation_fails_def Exec_def Query_def QueryRow_def preparedStmt_fresh Let_def)

theorem prepare_failure_falls_back_witness:
  "preparation_fails colliding prepare_fails tx_db ''SELECT $1''
   \<and> Exec colliding prepare_fails tx_db ''SELECT ?'' [IntV 5]
       = (conn_Exec (OnTx 1) ''SELECT $1'' [IntV 5], tx_db, [''SELECT $1''])
   \<and> Query colliding prepare_fails tx_db ''SELECT ?'' [IntV 5]
       = (conn_Query (OnTx 1) ''SELECT $1'' [IntV 5], tx_db, [''SELECT $1''])
   \<and> QueryRow colliding prepare_fails tx_db ''SELECT ?'' [IntV 5]
       = (conn_QueryRow (OnTx 1) ''SELECT $1'' [IntV 5], tx_db, [''SELECT $1''])"
proof -
  have r: "replacePlaceholders numbered ''SELECT ?'' = ''SELECT $1''"
    "replacePlaceholders numbered ''SELECT $1'' = ''SELECT $1''"
    by (simp_all add: replacePlaceholders_def numbered_def)
  have f: "preparation_fails colliding prepare_fails tx_db ''SELECT $1''"
    by (simp add: preparation_fails_def cache_hit_def cache_lookup_def tx_db_def prepare_fails_def)
  have d: "replacesPlaceholders tx_db" "Placeholder tx_db = numbered" "conn tx_db = OnTx 1"
    by (simp_all add: tx_db_def)
  show ?thesis
    using prepare_failure_falls_back [of "[IntV 5]" "''SELECT $1''" tx_db "''SELECT ?''" "''SELECT $1''"
        colliding prepare_fails] f
    by (simp add: r d)
qed

subsection \<open>Transactions\<close>



text \<open>
  C7. \<^verbatim>\<open>Begin\<close> on a handle inside a transaction fails with
  \<^verbatim>\<open>ErrInTransaction\<close>; \<^verbatim>\<open>Commit\<close> and \<^verbatim>\<open>Rollback\<close> on a handle outside one
  fail with \<^verbatim>\<open>ErrNotInTransaction\<close> and leave the handle as it was; \<^verbatim>\<open>Begin\<close> on a
  handle outside a transaction returns a copy of the handle bound to the transaction the
  library opened (or the library's error when it opened none); and whatever it returns,
  \<^verbatim>\<open>Begin\<close> leaves its receiver as it was.
\<close>

theorem transaction_state_errors:
  "(tx d \<noteq> None \<longrightarrow> Begin r d = (d, Inl ErrInTransaction))
   \<and> (tx d = None \<longrightarrow> Commit d = (d, RetErr ErrNotInTransaction)
                      \<and> Rollback d = (d, RetErr ErrNotInTransaction))
   \<and> (tx d = None \<longrightarrow> Begin (Inr t) d = (d, Inr (d\<lparr>tx := Some t, conn := OnTx t\<rparr>))
                      \<and> Begin (Inl e) d = (d, Inl (Backend e)))
   \<and> fst (Begin r d) = d"
  by (auto simp: Begin_def Commit_def Rollback_def split: sum.splits)

theorem transaction_state_errors_witness:
  "Begin (Inr 2) tx_db = (tx_db, Inl ErrInTransaction)
   \<and> Commit plain_db = (plain_db, RetErr ErrNotInTransaction)
   \<and> Rollback plain_db = (plain_db, RetErr ErrNotInTransaction)
   \<and> Begin (Inr 2) plain_db = (plain_db, Inr (plain_db\<lparr>tx := Some 2, conn := OnTx 2\<rparr>))
   \<and> tx plain_db = None \<and> tx tx_db = Some 1"
  using transaction_state_errors [of tx_db "Inr 2" 2] transaction_state_errors [of plain_db "Inr 2" 2]
  by (simp add: tx_db_def plain_db_def)

section \<open>Properties of the join resolver and the field mapper\<close>

subsection \<open>Chains\<close>

lemma clone_is_copy: "clone jm = jm" "join_clone jn = jn"
  by (induction jm and jn rule: clone_join_clone.induct) simp_all

lemma self_in_chain: "j \<in> set (chain j)"
  by (induction j rule: chain.induct) simp_all

lemma nonnil_chain_head: "nonnil_chain j \<Longrightarrow> jm_model j \<noteq> None"
  using self_in_chain [of j] by (auto simp: nonnil_chain_def)

lemma collect_references_to:
  "nonnil_chain j \<Longrightarrow> collect ms j t acc = Inr (acc @ references_to ms j t)"
proof (induction ms j t acc rule: collect.induct)
  case (1 ms s jo target candidates)
  then show ?case using nonnil_chain_head by fastforce
next
  case (2 ms m s target candidates)
  then show ?case by (simp add: references_to_def)
next
  case (3 ms m s jm jt q target candidates)
  then show ?case by (simp add: references_to_def nonnil_chain_def)
qed

lemma jm_model_set_tail_join: "jm_model (set_tail_join j jn) = jm_model j"
  by (induction j jn rule: set_tail_join.induct) simp_all

lemma steps_set_tail_join:
  "steps (set_tail_join j (Join jm jt q)) = steps j @ (jm_model jm, jt, q) # steps jm"
  by (induction j "Join jm jt q" rule: set_tail_join.induct) (simp_all add: jm_model_set_tail_join)

lemma chain_set_tail_join:
  "map jm_model (chain (set_tail_join j jn)) = map jm_model (chain j) @ map jm_model (chain (j_model jn))"
  by (induction j jn rule: set_tail_join.induct) (case_tac jn, simp)+

lemma all_equal_iff:
  "all_equal first ev vs \<longleftrightarrow>
     (\<forall>c \<in> set vs. eq_value c = Some ev \<and> jm_model (j_model c) = jm_model (j_model first))"
  apply (induction vs)
   apply simp
  subgoal for a vs
    apply (cases a)
    subgoal for jm jt q
      apply (cases q)
       apply simp
      subgoal for qq by (cases qq) auto
      done
    done
  done

lemma collapse_cases:
  "collapse cs = (if length cs > 1 \<and> redundant cs then [hd cs] else cs)"
proof (cases cs)
  case Nil
  then show ?thesis by (simp add: collapse_def)
next
  case (Cons c rest)
  obtain jm jt q where c: "c = Join jm jt q" by (cases c)
  show ?thesis
  proof (cases "eq_value c")
    case None
    then show ?thesis using Cons c
      by (cases q; (cases "the q")?) (auto simp: collapse_def redundant_def Let_def)
  next
    case (Some v)
    then obtain fld where q: "q = Some (Eq fld v)"
      using c by (cases q; (cases "the q")?) auto
    show ?thesis using Cons c q
      by (auto simp: collapse_def redundant_def Let_def all_equal_iff)
  qed
qed


lemma joinWith_None_cases:
  assumes "nonnil_chain j"
  shows "joinWith ms j t None jt =
     (if references_to ms j t = [] then Inl (errCantJoin j t)
      else if length (references_to ms j t) = 1 \<or> redundant (references_to ms j t) then
        Inr (set_tail_join j (Join (clone (j_model (hd (references_to ms j t)))) jt
                                   (j_q (hd (references_to ms j t)))), length (chain j))
      else Inl (errAmbiguousJoin j t None))"
proof -
  define cs where "cs = references_to ms j t"
  obtain m where m: "jm_model j = Some m"
    using nonnil_chain_head [OF assms] by auto
  have col: "collect ms j t [] = Inr cs"
    using collect_references_to [OF assms, of ms t "[]"] by (simp add: cs_def)
  have "joinWith ms j t None jt =
     (if cs = [] then Inl (errCantJoin j t)
      else if length cs = 1 \<or> redundant cs then
        Inr (set_tail_join j (Join (clone (j_model (hd cs))) jt (j_q (hd cs))), length (chain j))
      else Inl (errAmbiguousJoin j t None))"
  proof (cases cs)
    case Nil
    then show ?thesis by (simp add: joinWith_def m col collapse_cases)
  next
    case (Cons c rest)
    obtain jm ct cq where c: "c = Join jm ct cq" by (cases c)
    show ?thesis
    proof (cases rest)
      case Nil
      with Cons c show ?thesis by (simp add: joinWith_def m col collapse_cases)
    next
      case (Cons c' rest')
      with \<open>cs = c # rest\<close> c show ?thesis
        by (simp add: joinWith_def m col collapse_cases)
    qed
  qed
  then show ?thesis by (simp add: cs_def)
qed

text \<open>
  C1. An implicit join (\<open>q = None\<close>) on a chain all of whose nodes have a model, which
  includes that the chain is not empty. The candidates are the references to the target
  found on every model of the chain, from the base to the tail. No candidate: the
  cannot-join error. One candidate, or several that are all equality conditions with the
  comparison value and the target model of the first: the first candidate is cloned, its
  join type is replaced by the requested one, and it becomes the join of the tail, so
  the join steps of the new chain are those of the old one followed by the new step; the
  node returned is the one right after the old tail. Several candidates otherwise: the
  ambiguity error.
\<close>

theorem joinWith_implicit:
  assumes "nonnil_chain j"
  shows "joinWith ms j t None jt =
     (let cs = references_to ms j t in
      if cs = [] then Inl (errCantJoin j t)
      else if length cs = 1 \<or> redundant cs then
        Inr (set_tail_join j (Join (clone (j_model (hd cs))) jt (j_q (hd cs))), length (chain j))
      else Inl (errAmbiguousJoin j t None))
   \<and> (\<forall>j' pos. joinWith ms j t None jt = Inr (j', pos) \<longrightarrow>
        pos = length (chain j)
        \<and> steps j' = steps j @ (jm_model (j_model (hd (references_to ms j t))), jt,
                                 j_q (hd (references_to ms j t)))
                              # steps (j_model (hd (references_to ms j t)))
        \<and> map jm_model (chain j') =
            map jm_model (chain j) @ map jm_model (chain (j_model (hd (references_to ms j t)))))"
proof -
  define cs where "cs = references_to ms j t"
  note eq = joinWith_None_cases [OF assms, of ms t jt, folded cs_def]
  have rest: "pos = length (chain j)
        \<and> steps j' = steps j @ (jm_model (j_model (hd cs)), jt, j_q (hd cs)) # steps (j_model (hd cs))
        \<and> map jm_model (chain j') = map jm_model (chain j) @ map jm_model (chain (j_model (hd cs)))"
    if "joinWith ms j t None jt = Inr (j', pos)" for j' pos
  proof -
    from that eq have j': "j' = set_tail_join j (Join (clone (j_model (hd cs))) jt (j_q (hd cs)))"
      and pos: "pos = length (chain j)"
      by (auto split: if_splits)
    show ?thesis
      by (simp add: j' pos steps_set_tail_join chain_set_tail_join clone_is_copy)
  qed
  show ?thesis
    using eq rest unfolding cs_def Let_def by blast
qed

lemma nonnil_examples:
  "nonnil_chain (single m)" "nonnil_chain article_comments"
  by (simp_all add: nonnil_chain_def single_def article_comments_def)

lemma references_examples:
  "references_to registry (single 2) 7 = []"
  "references_to registry (single 2) 0 = [to_model 0 ''Article|Author'' ''User|Id'']"
  "references_to registry article_comments 0 =
     [to_model 0 ''Article|Author'' ''User|Id'', to_model 0 ''Comment|Author'' ''User|Id'',
      to_model 0 ''Comment|Editor'' ''User|Id'']"
  "references_to registry (single 4) 0 =
     [to_model 0 ''Review|Reviewer'' ''User|Id'', to_model 0 ''Review|Subject'' ''User|Name'']"
  by (simp_all add: references_to_def registry_def single_def article_comments_def
      article_model_def comment_model_def review_model_def)

theorem joinWith_implicit_witness:
  "nonnil_chain (single 2) \<and> nonnil_chain article_comments \<and> nonnil_chain (single 4)
   \<and> joinWith registry (single 2) 7 None LeftJoin = Inl (errCantJoin (single 2) 7)
   \<and> joinWith registry (single 2) 0 None LeftJoin =
       Inr (JoinModel (Some 2) False
              (Some (Join (single 0) LeftJoin (Some (Eq ''Article|Author'' (F ''User|Id''))))), 1)
   \<and> redundant (references_to registry article_comments 0)
   \<and> length (references_to registry article_comments 0) = 3
   \<and> joinWith registry article_comments 0 None RightJoin =
       Inr (JoinModel (Some 2) False
              (Some (Join
                 (JoinModel (Some 3) False
                    (Some (Join (single 0) RightJoin (Some (Eq ''Article|Author'' (F ''User|Id''))))))
                 LeftJoin (Some (Eq ''Comment|Article'' (F ''Article|Id''))))), 2)
   \<and> length (references_to registry (single 4) 0) = 2
   \<and> \<not> redundant (references_to registry (single 4) 0)
   \<and> joinWith registry (single 4) 0 None LeftJoin = Inl (errAmbiguousJoin (single 4) 0 None)"
proof -
  have r1: "redundant (references_to registry article_comments 0)"
    by (simp add: references_examples redundant_def to_model_def)
  have r2: "\<not> redundant (references_to registry (single 4) 0)"
    by (simp add: references_examples redundant_def to_model_def)
  have a: "joinWith registry (single 2) 7 None LeftJoin = Inl (errCantJoin (single 2) 7)"
    using joinWith_implicit [OF nonnil_examples(1), of registry 2 7 LeftJoin, THEN conjunct1]
    unfolding references_examples Let_def by simp
  have b: "joinWith registry (single 2) 0 None LeftJoin =
       Inr (JoinModel (Some 2) False
              (Some (Join (single 0) LeftJoin (Some (Eq ''Article|Author'' (F ''User|Id''))))), 1)"
    using joinWith_implicit [OF nonnil_examples(1), of registry 2 0 LeftJoin, THEN conjunct1]
    unfolding references_examples Let_def by (simp add: to_model_def single_def)
  have c: "joinWith registry article_comments 0 None RightJoin =
       Inr (JoinModel (Some 2) False
              (Some (Join
                 (JoinModel (Some 3) False
                    (Some (Join (single 0) RightJoin (Some (Eq ''Article|Author'' (F ''User|Id''))))))
                 LeftJoin (Some (Eq ''Comment|Article'' (F ''Article|Id''))))), 2)"
    using joinWith_implicit [OF nonnil_examples(2), of registry 0 RightJoin, THEN conjunct1] r1
    unfolding references_examples Let_def by (simp add: to_model_def single_def article_comments_def)
  have d: "joinWith registry (single 4) 0 None LeftJoin = Inl (errAmbiguousJoin (single 4) 0 None)"
    using joinWith_implicit [OF nonnil_examples(1), of registry 4 0 LeftJoin, THEN conjunct1] r2
    unfolding references_examples Let_def by simp
  show ?thesis
    using a b c d r1 r2 by (simp add: nonnil_examples references_examples)
qed

subsection \<open>Field mapping\<close>

lemma field_lookup_ok:
  "fields_ok m \<Longrightarrow>
   field_lookup m fld = (case field_of m fld of [] \<Rightarrow> Inl (errCantMap fld) | c # cs \<Rightarrow> Inr c)"
  by (auto simp: field_lookup_def field_of_def fields_ok_def split: option.splits)

lemma field_of_short: "field_of m fld = [] \<or> (\<exists>c. field_of m fld = [c])"
  by (simp add: field_of_def split: option.splits)

lemma answers_ok:
  assumes "fields_ok m"
  shows "answers m qname =
     (case IndexByte qname (CHR ''|'') of
        Some sep \<Rightarrow> if named m (take sep qname) then field_of m (drop (sep + 1) qname) else []
      | None \<Rightarrow> field_of m qname)"
    and "model_Map m qname \<noteq> Inl Panic"
  using field_of_short [of m qname] field_of_short [of m "drop (Suc (the (IndexByte qname (CHR ''|'')))) qname"]
  by (auto simp: answers_def model_Map_def named_def Let_def field_lookup_ok [OF assms]
      split: option.splits list.splits)

lemma Map_loop_answers:
  assumes "nonnil_chain j" and "\<forall>m \<in> set (chain_models ms j). fields_ok m"
  shows "Map_loop ms j qname acc = Inr (acc @ concat (map (\<lambda>m. answers m qname) (chain_models ms j)))"
  using assms
proof (induction ms j qname acc rule: Map_loop.induct)
  case (1 ms s jo qname candidates)
  then show ?case using nonnil_chain_head by fastforce
next
  case (2 ms m s jo qname candidates)
  have ok: "fields_ok (ms m)"
    using "2.prems"(2) self_in_chain [of "JoinModel (Some m) s jo"]
    by (force simp: chain_models_def)
  note np = answers_ok(2) [OF ok, of qname]
  show ?case
  proof (cases jo)
    case None
    then show ?thesis using np
      by (auto simp: chain_models_def answers_def split: sum.splits error.splits)
  next
    case (Some jn)
    obtain jm jt q where jn: "jn = Join jm jt q" by (cases jn)
    have nn: "nonnil_chain jm" and fo: "\<forall>m \<in> set (chain_models ms jm). fields_ok m"
      using "2.prems" Some jn by (auto simp: nonnil_chain_def chain_models_def)
    show ?thesis
    proof (cases "model_Map (ms m) qname")
      case (Inl err)
      with np have "err \<noteq> Panic" by auto
      then show ?thesis
        using "2.IH" nn fo Some jn Inl
        by (cases err) (simp_all add: chain_models_def answers_def)
    next
      case (Inr c)
      then show ?thesis
        using "2.IH" nn fo Some jn
        by (simp add: chain_models_def answers_def)
    qed
  qed
qed


lemma concat_map_if_filter:
  "concat (map (\<lambda>x. if P x then f x else []) xs) = concat (map f (filter P xs))"
  by (induction xs) simp_all

lemma answers_matches:
  assumes "\<forall>m \<in> set cms. fields_ok m"
  shows "concat (map (\<lambda>m. answers m qname) cms) =
     (case IndexByte qname (CHR ''|'') of
        Some sep \<Rightarrow>
          concat (map (\<lambda>m. field_of m (drop (sep + 1) qname))
                      (filter (\<lambda>m. named m (take sep qname)) cms))
      | None \<Rightarrow> concat (map (\<lambda>m. field_of m qname) cms))"
proof (cases "IndexByte qname (CHR ''|'')")
  case None
  have "map (\<lambda>m. answers m qname) cms = map (\<lambda>m. field_of m qname) cms"
    using assms None by (intro map_cong refl) (simp add: answers_ok(1))
  then have "concat (map (\<lambda>m. answers m qname) cms) = concat (map (\<lambda>m. field_of m qname) cms)"
    by (rule arg_cong)
  then show ?thesis by (simp add: None)
next
  case (Some sep)
  have "map (\<lambda>m. answers m qname) cms =
        map (\<lambda>m. if named m (take sep qname) then field_of m (drop (sep + 1) qname) else []) cms"
    using assms Some by (intro map_cong refl) (simp add: answers_ok(1))
  then have "concat (map (\<lambda>m. answers m qname) cms) =
      concat (map (\<lambda>m. if named m (take sep qname) then field_of m (drop (sep + 1) qname) else []) cms)"
    by (rule arg_cong)
  then show ?thesis by (simp add: Some concat_map_if_filter)
qed

lemma model_Map_other_name:
  "IndexByte qname (CHR ''|'') = Some sep \<Longrightarrow> \<not> named m (take sep qname) \<Longrightarrow>
   model_Map m qname = Inl (errNotThisModel (take sep qname))"
  by (simp add: model_Map_def named_def Let_def)

text \<open>
  C3. On a chain all of whose nodes have a model with field indexes in range,
  \<^verbatim>\<open>joinModel.Map\<close> returns the cannot-map error when the qualified name has no match
  over the chain, the column and type of the match when it has exactly one, and the
  ambiguity error when it has more than one. With a \<^verbatim>\<open>Type|\<close> prefix the matches come
  only from the models that answer to the prefix: \<^verbatim>\<open>model.Map\<close> of any other model
  returns the not-this-model error, and when no model of the chain answers to the prefix
  the result is an error, whatever fields the models of the chain have.
\<close>

theorem Map_one_zero_many:
  assumes "nonnil_chain j" and "\<forall>m \<in> set (chain_models ms j). fields_ok m"
  shows "joinModel_Map ms j qname =
           (case matches ms j qname of
              [] \<Rightarrow> Inl (errCantMap qname)
            | [c] \<Rightarrow> Inr c
            | c # c' # cs \<Rightarrow> Inl (errAmbiguous qname))
   \<and> (\<forall>sep m. IndexByte qname (CHR ''|'') = Some sep \<and> \<not> named m (take sep qname) \<longrightarrow>
         model_Map m qname = Inl (errNotThisModel (take sep qname)))
   \<and> (\<forall>sep. IndexByte qname (CHR ''|'') = Some sep
              \<and> (\<forall>m \<in> set (chain_models ms j). \<not> named m (take sep qname)) \<longrightarrow>
         joinModel_Map ms j qname = Inl (errCantMap qname))"
proof -
  have loop: "Map_loop ms j qname [] = Inr (matches ms j qname)"
    using Map_loop_answers [OF assms, of qname "[]"] answers_matches [OF assms(2), of qname]
    by (simp add: matches_def)
  have main: "joinModel_Map ms j qname =
           (case matches ms j qname of
              [] \<Rightarrow> Inl (errCantMap qname)
            | [c] \<Rightarrow> Inr c
            | c # c' # cs \<Rightarrow> Inl (errAmbiguous qname))"
    by (simp add: joinModel_Map_def loop split: list.splits)
  have none: "joinModel_Map ms j qname = Inl (errCantMap qname)"
    if "IndexByte qname (CHR ''|'') = Some sep"
      and "\<forall>m \<in> set (chain_models ms j). \<not> named m (take sep qname)" for sep
  proof -
    have "filter (\<lambda>m. named m (take sep qname)) (chain_models ms j) = []"
      using that(2) by (simp add: filter_empty_conv)
    then have "matches ms j qname = []"
      using that(1) by (simp add: matches_def)
    then show ?thesis by (simp add: main)
  qed
  show ?thesis
    using main none model_Map_other_name by blast
qed

lemma fields_ok_registry: "fields_ok (registry m)"
  by (simp add: fields_ok_def registry_def user_model_def article_model_def comment_model_def
      review_model_def no_fields_def)

lemma chain_models_article_user: "chain_models registry article_user = [article_model, user_model]"
  by (simp add: chain_models_def article_user_def single_def registry_def)


lemma chain_ok_article_user:
  "nonnil_chain article_user" "\<forall>m \<in> set (chain_models registry article_user). fields_ok m"
  by (simp_all add: nonnil_chain_def article_user_def single_def chain_models_def fields_ok_registry)

lemma matches_article_user:
  "matches registry article_user ''Title'' = [(''title'', ''string'')]"
  "matches registry article_user ''Id'' = [(''id'', ''int64''), (''id'', ''int64'')]"
  "matches registry article_user ''Votes'' = []"
  "matches registry article_user ''U|Id'' = [(''id'', ''int64'')]"
  "matches registry article_user ''Tag|Id'' = []"
  by (simp_all add: matches_def chain_models_article_user named_def field_of_def
      article_model_def user_model_def)

theorem Map_one_zero_many_witness:
  "nonnil_chain article_user
   \<and> joinModel_Map registry article_user ''Title'' = Inr (''title'', ''string'')
   \<and> joinModel_Map registry article_user ''Id'' = Inl (errAmbiguous ''Id'')
   \<and> joinModel_Map registry article_user ''Votes'' = Inl (errCantMap ''Votes'')
   \<and> joinModel_Map registry article_user ''U|Id'' = Inr (''id'', ''int64'')
   \<and> joinModel_Map registry article_user ''Tag|Id'' = Inl (errCantMap ''Tag|Id'')
   \<and> model_Map article_model ''U|Id'' = Inl (errNotThisModel ''U'')"
proof -
  note t = Map_one_zero_many [OF chain_ok_article_user]
  have a: "joinModel_Map registry article_user ''Title'' = Inr (''title'', ''string'')"
    using t [of "''Title''", THEN conjunct1] unfolding matches_article_user by simp
  have b: "joinModel_Map registry article_user ''Id'' = Inl (errAmbiguous ''Id'')"
    using t [of "''Id''", THEN conjunct1] unfolding matches_article_user by simp
  have c: "joinModel_Map registry article_user ''Votes'' = Inl (errCantMap ''Votes'')"
    using t [of "''Votes''", THEN conjunct1] unfolding matches_article_user by simp
  have d: "joinModel_Map registry article_user ''U|Id'' = Inr (''id'', ''int64'')"
    using t [of "''U|Id''", THEN conjunct1] unfolding matches_article_user by simp
  have i: "IndexByte ''Tag|Id'' (CHR ''|'') = Some 3" "IndexByte ''U|Id'' (CHR ''|'') = Some 1"
    by simp_all
  have e: "joinModel_Map registry article_user ''Tag|Id'' = Inl (errCantMap ''Tag|Id'')"
    using t [of "''Tag|Id''", THEN conjunct2, THEN conjunct2, rule_format, of 3] i(1)
    by (simp add: chain_models_article_user named_def article_model_def user_model_def)
  have f: "model_Map article_model ''U|Id'' = Inl (errNotThisModel ''U'')"
    using t [of "''U|Id''", THEN conjunct2, THEN conjunct1, rule_format, of 1 article_model] i(2)
    by (simp add: named_def article_model_def)
  show ?thesis using a b c d e f chain_ok_article_user(1) by simp
qed

subsection \<open>Joins made for a field reference\<close>












subsection \<open>The order of models\<close>













section \<open>Further properties\<close>

lemma loop_without_question_mark:
  "CHR ''?'' \<notin> set rest \<Longrightarrow>
   replacePlaceholders_loop placeholder query rest ii inQuote inDoubleQuote p written buf = (written, buf)"
  by (induction rest arbitrary: ii inQuote inDoubleQuote) auto

text \<open>
  A text without any \<^verbatim>\<open>?\<close> is returned as it is, whatever its quotes.
\<close>

theorem replacePlaceholders_without_question_mark:
  "CHR ''?'' \<notin> set query \<Longrightarrow> replacePlaceholders placeholder query = query"
  by (simp add: replacePlaceholders_def loop_without_question_mark)

theorem replacePlaceholders_without_question_mark_witness:
  "CHR ''?'' \<notin> set ''SELECT 1'' \<and> replacePlaceholders numbered ''SELECT 1'' = ''SELECT 1''"
  using replacePlaceholders_without_question_mark [of "''SELECT 1''" numbered] by simp

text \<open>
  In \<^verbatim>\<open>SELECT * FROM t WHERE s = '?' AND x = ?\<close> only the second \<^verbatim>\<open>?\<close>, the one
  outside the quoted literal, is replaced.
\<close>

theorem replacePlaceholders_quoted_question_mark:
  "replacePlaceholders placeholder
     (''SELECT * FROM t WHERE s = '' @ [CHR 0x27, CHR ''?'', CHR 0x27] @ '' AND x = ?'')
   = ''SELECT * FROM t WHERE s = '' @ [CHR 0x27, CHR ''?'', CHR 0x27] @ '' AND x = '' @ placeholder 0"
  by (simp add: replacePlaceholders_def)

theorem replacePlaceholders_quoted_question_mark_witness:
  "replacePlaceholders numbered
     (''SELECT * FROM t WHERE s = '' @ [CHR 0x27, CHR ''?'', CHR 0x27] @ '' AND x = ?'')
   = ''SELECT * FROM t WHERE s = '' @ [CHR 0x27, CHR ''?'', CHR 0x27] @ '' AND x = $1''"
  using replacePlaceholders_quoted_question_mark [of numbered] by (simp add: numbered_def)

text \<open>
  An explicit join (a condition is given) on a chain that is not empty appends a
  node for the model at the tail, with the given type and condition and no check of the
  references: the join steps are those of the chain followed by the new one.
\<close>

theorem joinWith_explicit:
  assumes "jm_model j \<noteq> None"
  shows "joinWith ms j t (Some q) jt =
           Inr (set_tail_join j (Join (JoinModel (Some t) False None) jt (Some q)), length (chain j))
   \<and> steps (set_tail_join j (Join (JoinModel (Some t) False None) jt (Some q)))
       = steps j @ [(Some t, jt, Some q)]"
  using assms by (auto simp: joinWith_def steps_set_tail_join)

theorem joinWith_explicit_witness:
  "joinWith registry (single 2) 3 (Some (Eq ''Comment|Article'' (F ''Article|Id''))) LeftJoin
     = Inr (article_comments, 1)
   \<and> steps article_comments = [(Some 3, LeftJoin, Some (Eq ''Comment|Article'' (F ''Article|Id'')))]"
  using joinWith_explicit [of "single 2" registry 3 "Eq ''Comment|Article'' (F ''Article|Id'')" LeftJoin]
  by (simp add: single_def article_comments_def)

text \<open>
  On an empty chain the model becomes the root of the chain and no join step is
  added, with or without a condition.
\<close>

theorem joinWith_empty_chain:
  assumes "jm_model j = None"
  shows "joinWith ms j t q jt = Inr (JoinModel (Some t) (jm_skip j) (jm_join j), 0)
   \<and> steps (JoinModel (Some t) (jm_skip j) (jm_join j)) = steps j"
  using assms by (cases j; cases "jm_join j"; cases "the (jm_join j)") (auto simp: joinWith_def)

theorem joinWith_empty_chain_witness:
  "joinWith registry (JoinModel None False None) 2 None InnerJoin = Inr (single 2, 0)
   \<and> steps (single 2) = []"
  using joinWith_empty_chain [of "JoinModel None False None" registry 2 None InnerJoin]
  by (simp add: single_def)

text \<open>
  A text that is not in the cache and that the library can prepare is prepared once:
  the first call hands it to \<^verbatim>\<open>Prepare\<close> and stores the statement, and a second call for
  the same text returns the same statement without calling \<^verbatim>\<open>Prepare\<close>.
\<close>

theorem second_lookup_hits:
  assumes "\<not> cache_hit C d s" and "fst (P s) = Some st"
  shows "preparedStmt C P d s = (Some (tx_bind d st), cache_store d (C s) \<lparr>sql = s, stmt = st\<rparr>, [s])
   \<and> preparedStmt C P' (cache_store d (C s) \<lparr>sql = s, stmt = st\<rparr>) s
       = (Some (tx_bind d st), cache_store d (C s) \<lparr>sql = s, stmt = st\<rparr>, [])"
proof -
  have h: "cache_hit C (cache_store d (C s) \<lparr>sql = s, stmt = st\<rparr>) s"
    by (simp add: cache_hit_def cache_store_def cache_lookup_def)
  have l: "the (cache_lookup (cache_store d (C s) \<lparr>sql = s, stmt = st\<rparr>) (C s)) = \<lparr>sql = s, stmt = st\<rparr>"
    by (simp add: cache_store_def cache_lookup_def)
  have b: "tx_bind (cache_store d (C s) \<lparr>sql = s, stmt = st\<rparr>) = tx_bind d"
    by (simp add: tx_bind_def cache_store_def fun_eq_iff)
  show ?thesis
    using assms by (simp add: preparedStmt_fresh preparedStmt_hit [OF h] l b)
qed

theorem second_lookup_hits_witness:
  "\<not> cache_hit colliding plain_db ''SELECT $1''
   \<and> fst (preparedStmt colliding prepare_ok plain_db ''SELECT $1'') = Some (Stmt 7 ''SELECT $1'')
   \<and> snd (snd (preparedStmt colliding prepare_ok plain_db ''SELECT $1'')) = [''SELECT $1'']
   \<and> fst (preparedStmt colliding prepare_fails
            (fst (snd (preparedStmt colliding prepare_ok plain_db ''SELECT $1''))) ''SELECT $1'')
       = Some (Stmt 7 ''SELECT $1'')
   \<and> snd (snd (preparedStmt colliding prepare_fails
            (fst (snd (preparedStmt colliding prepare_ok plain_db ''SELECT $1''))) ''SELECT $1'')) = []"
proof -
  have n: "\<not> cache_hit colliding plain_db ''SELECT $1''"
    by (simp add: cache_hit_def cache_lookup_def plain_db_def)
  have p: "fst (prepare_ok ''SELECT $1'') = Some (Stmt 7 ''SELECT $1'')"
    by (simp add: prepare_ok_def)
  have b: "tx_bind plain_db = (\<lambda>st. st)"
    by (simp add: tx_bind_def plain_db_def fun_eq_iff)
  show ?thesis
    using second_lookup_hits [of colliding plain_db "''SELECT $1''" prepare_ok "Stmt 7 ''SELECT $1''"
        prepare_fails] n p
    by (simp add: b)
qed

text \<open>
  After an explicit \<^verbatim>\<open>Commit\<close> or \<^verbatim>\<open>Rollback\<close>, \<^verbatim>\<open>Close\<close> returns nil without
  calling anything and leaves the handle as it is, however often it is called.
\<close>

theorem Close_after_Commit_or_Rollback:
  assumes "tx d = Some t"
  shows "run [CallCommit, CallClose, CallClose] d
           = (d\<lparr>txDone := True\<rparr>, [RetOf (tx_Commit t), RetNil, RetNil])
   \<and> run [CallRollback, CallClose, CallClose] d
           = (d\<lparr>txDone := True\<rparr>, [RetOf (tx_Rollback t), RetNil, RetNil])"
  using assms by (simp add: Commit_def Rollback_def Close_def)

theorem Close_after_Commit_or_Rollback_witness:
  "run [CallCommit, CallClose, CallClose] tx_db
           = (tx_db\<lparr>txDone := True\<rparr>, [RetOf (tx_Commit 1), RetNil, RetNil])
   \<and> run [CallRollback, CallClose, CallClose] tx_db
           = (tx_db\<lparr>txDone := True\<rparr>, [RetOf (tx_Rollback 1), RetNil, RetNil])"
  using Close_after_Commit_or_Rollback [of tx_db 1] by (simp add: tx_db_def)

end
